theory Spec2Isabelle
  imports Complex_Main "HOL-Library.Sublist" "HOL-Library.Log_Nat" "HOL-Library.Code_Target_Nat"
begin

section \<open>The scraper and its numbers\<close>

text \<open>
  The scraper (\<^verbatim>\<open>Jumia_scrapper2.py\<close>, class \<^verbatim>\<open>EnhancedJumiaScraper\<close>) works on Python
  strings and floats. A string is modelled as a \<^typ>\<open>string\<close> whose characters are the
  code points below 256. A float is modelled as the rational number that the binary64
  value stands for, and every operation on floats rounds its exact result to binary64 as
  the machine does (to the nearest value, a tie to the even significand, gradual underflow).
  Infinity and NaN are not values of the model: a number beyond the largest binary64 value
  keeps its rounded finite value here, except where the source would raise.
\<close>

section \<open>Binary64 arithmetic\<close>

definition round_half_even :: "rat \<Rightarrow> int" where
  \<comment> \<open>the nearest integer, a tie to the even one\<close>
  "round_half_even x =
     (let f = \<lfloor>x\<rfloor>; d = x - of_int f
      in if d < 1 / 2 then f else if 1 / 2 < d then f + 1 else if even f then f else f + 1)"

definition ilog2 :: "rat \<Rightarrow> int" where
  \<comment> \<open>for a positive number the exponent \<open>e\<close> with \<open>2 powi e \<le> x < 2 powi (e + 1)\<close>\<close>
  "ilog2 x =
     (case quotient_of x of
        (p, q) \<Rightarrow> let e = bitlen p - bitlen q in if x < 2 powi e then e - 1 else e)"

definition f64 :: "rat \<Rightarrow> rat" where
  \<comment> \<open>rounding to binary64: 53 significant bits, and no bit below \<open>2 powi (- 1074)\<close>\<close>
  "f64 x =
     (if x = 0 then 0
      else
        let q = 2 powi (max (ilog2 \<bar>x\<bar> - 52) (- 1074))
        in sgn x * of_int (round_half_even (\<bar>x\<bar> / q)) * q)"

definition float_add :: "rat \<Rightarrow> rat \<Rightarrow> rat" where
  "float_add x y = f64 (x + y)"

definition float_sub :: "rat \<Rightarrow> rat \<Rightarrow> rat" where
  "float_sub x y = f64 (x - y)"

definition float_mul :: "rat \<Rightarrow> rat \<Rightarrow> rat" where
  "float_mul x y = f64 (x * y)"

definition float_div :: "rat \<Rightarrow> rat \<Rightarrow> rat" where
  "float_div x y = f64 (x / y)"

section \<open>Text primitives\<close>

definition is_digit :: "char \<Rightarrow> bool" where
  \<comment> \<open>the class \<^verbatim>\<open>\d\<close> of \<^verbatim>\<open>re\<close>: below code point 256 the decimal digits are 0 to 9\<close>
  "is_digit c = (48 \<le> (of_char c :: nat) \<and> (of_char c :: nat) \<le> 57)"

definition digit_val :: "char \<Rightarrow> nat" where
  "digit_val c = (of_char c :: nat) - 48"

definition py_space :: "char \<Rightarrow> bool" where
  \<comment> \<open>\<^verbatim>\<open>str.isspace\<close> below code point 256: what \<^verbatim>\<open>strip()\<close> and \<^verbatim>\<open>split()\<close> remove\<close>
  "py_space c = (let n = (of_char c :: nat) in
     (9 \<le> n \<and> n \<le> 13) \<or> (28 \<le> n \<and> n \<le> 32) \<or> n = 133 \<or> n = 160)"

definition py_strip :: "string \<Rightarrow> string" where
  \<comment> \<open>\<^verbatim>\<open>s.strip()\<close>\<close>
  "py_strip s = rev (dropWhile py_space (rev (dropWhile py_space s)))"

fun replace_from :: "string \<Rightarrow> string \<Rightarrow> nat \<Rightarrow> string \<Rightarrow> string" where
  \<comment> \<open>the scan of \<^verbatim>\<open>str.replace\<close> for a non-empty pattern: the counter is the number of
      characters of the occurrence just matched that are still to be skipped\<close>
  "replace_from old new k [] = []"
| "replace_from old new (Suc k) (c # cs) = replace_from old new k cs"
| "replace_from old new 0 (c # cs) =
     (if prefix old (c # cs) then new @ replace_from old new (length old - 1) cs
      else c # replace_from old new 0 cs)"

definition py_replace :: "string \<Rightarrow> string \<Rightarrow> string \<Rightarrow> string" where
  \<comment> \<open>\<^verbatim>\<open>s.replace(old, new)\<close>: left to right, occurrences that do not overlap; an empty
      pattern matches before every character and at the end\<close>
  "py_replace old new s =
     (if old = [] then new @ concat (map (\<lambda>c. c # new) s) else replace_from old new 0 s)"

fun py_in :: "string \<Rightarrow> string \<Rightarrow> bool" where
  \<comment> \<open>\<^verbatim>\<open>p in s\<close> on strings\<close>
  "py_in p [] = (p = [])"
| "py_in p (c # cs) = (prefix p (c # cs) \<or> py_in p cs)"

definition digits_val :: "string \<Rightarrow> nat" where
  "digits_val ds = foldl (\<lambda>a c. 10 * a + digit_val c) 0 ds"

definition py_float :: "string \<Rightarrow> rat option" where
  \<comment> \<open>\<^verbatim>\<open>float(s)\<close> for a text of digits and periods, the only texts \<^verbatim>\<open>clean_price\<close> hands
      it: digits with at most one period, at least one digit, read as a decimal number
      and rounded to binary64; \<open>None\<close> is ValueError. Signs, exponents, blanks and words
      never reach it and are refused here.\<close>
  "py_float s =
     (let ip = takeWhile is_digit s; rest = dropWhile is_digit s in
      case rest of
        [] \<Rightarrow> if ip = [] then None else Some (f64 (of_nat (digits_val ip)))
      | d # fp \<Rightarrow>
          if d = CHR ''.'' \<and> list_all is_digit fp \<and> \<not> (ip = [] \<and> fp = [])
          then Some (f64 (of_nat (digits_val (ip @ fp)) / 10 ^ length fp))
          else None)"

section \<open>Text Normalizer\<close>

definition re_sub_non_price :: "string \<Rightarrow> string" where
  \<comment> \<open>\<^verbatim>\<open>re.sub(r'[^\d,.]', '', s)\<close>\<close>
  "re_sub_non_price s = filter (\<lambda>c. is_digit c \<or> c = CHR '','' \<or> c = CHR ''.'') s"

definition clean_price :: "string \<Rightarrow> rat" where
  "clean_price price_text =
     (if price_text = [] then 0
      else
        let cleaned = re_sub_non_price (py_strip price_text);
            cleaned = py_replace '','' [] cleaned
        in if cleaned = [] then 0
           else (case py_float cleaned of Some v \<Rightarrow> v | None \<Rightarrow> 0))"


definition clean_price_spec :: "string \<Rightarrow> rat" where
  \<comment> \<open>the contract as the specification words it: keep digits, commas and periods, drop
      the commas, parse, and fall back to 0\<close>
  "clean_price_spec raw_text =
     (let kept = filter (\<lambda>c. c \<in> set ''0123456789,.'') raw_text;
          without_commas = filter (\<lambda>c. c \<noteq> CHR '','') kept
      in case py_float without_commas of Some v \<Rightarrow> v | None \<Rightarrow> 0)"

section \<open>Attribute Inferencer\<close>

definition py_upper_char :: "char \<Rightarrow> char" where
  \<comment> \<open>case mapping on the ASCII letters; other characters are left as they are\<close>
  "py_upper_char c =
     (case map_of (zip ''abcdefghijklmnopqrstuvwxyz'' ''ABCDEFGHIJKLMNOPQRSTUVWXYZ'') c of
        Some u \<Rightarrow> u
      | None \<Rightarrow> c)"

definition py_lower_char :: "char \<Rightarrow> char" where
  "py_lower_char c =
     (case map_of (zip ''ABCDEFGHIJKLMNOPQRSTUVWXYZ'' ''abcdefghijklmnopqrstuvwxyz'') c of
        Some l \<Rightarrow> l
      | None \<Rightarrow> c)"

definition py_upper :: "string \<Rightarrow> string" where
  "py_upper s = map py_upper_char s"

definition py_lower :: "string \<Rightarrow> string" where
  "py_lower s = map py_lower_char s"

fun split_from :: "string \<Rightarrow> string \<Rightarrow> string list" where
  \<comment> \<open>the scan of \<^verbatim>\<open>s.split()\<close>; the first argument is the word being read\<close>
  "split_from cur [] = (if cur = [] then [] else [cur])"
| "split_from cur (c # cs) =
     (if py_space c then (if cur = [] then split_from [] cs else cur # split_from [] cs)
      else split_from (cur @ [c]) cs)"

definition py_split :: "string \<Rightarrow> string list" where
  "py_split s = split_from [] s"

definition known_brands :: "(string \<times> string list) list" where
  "known_brands =
     [(''tech'', [''HP'', ''Dell'', ''Lenovo'', ''Asus'', ''Acer'', ''Apple'', ''Microsoft'', ''MSI'']),
      (''phones'', [''Samsung'', ''iPhone'', ''Huawei'', ''Xiaomi'', ''OnePlus'', ''Nokia'', ''Oppo'', ''Vivo'']),
      (''tv'', [''Samsung'', ''LG'', ''Sony'', ''TCL'', ''Hisense'', ''Toshiba'']),
      (''appliances'', [''Samsung'', ''LG'', ''Whirlpool'', ''Bosch'', ''Electrolux'']),
      (''gaming'', [''PlayStation'', ''Xbox'', ''Nintendo'', ''Razer'', ''Logitech''])]"

definition brands_of :: "string \<Rightarrow> string list" where
  \<comment> \<open>\<^verbatim>\<open>self.known_brands[group]\<close> for the five groups of the table\<close>
  "brands_of g = (case map_of known_brands g of Some bs \<Rightarrow> bs | None \<Rightarrow> [])"

definition extract_brand :: "string \<Rightarrow> string \<Rightarrow> string" where
  "extract_brand product_name category_key =
     (let product_upper = py_upper product_name;
          brands_to_check =
            (if category_key \<in> set [''ordinateurs-pc'', ''jeux-videos-consoles'']
             then brands_of ''tech'' @ brands_of ''gaming''
             else if category_key = ''telephones-smartphones'' then brands_of ''phones''
             else if category_key = ''tv-home-cinema-lecteurs'' then brands_of ''tv''
             else if category_key = ''mlp-electromenager'' then brands_of ''appliances''
             else concat (map snd known_brands))
      in case find (\<lambda>brand. py_in (py_upper brand) product_upper) brands_to_check of
           Some brand \<Rightarrow> brand
         | None \<Rightarrow>
             let first_word = (case py_split product_name of [] \<Rightarrow> ''Unknown'' | w # _ \<Rightarrow> w)
             in take 20 first_word)"

definition common_words :: "string list" where
  "common_words = [''Laptop'', ''Smartphone'', ''TV'', ''Inch'', ''GB'', ''TB'', ''RAM'', ''SSD'', ''HDD'']"

definition extract_model :: "string \<Rightarrow> string \<Rightarrow> string" where
  "extract_model product_name brand =
     (if brand = ''Unknown'' \<or> \<not> py_in brand product_name then take 100 product_name
      else
        let model = py_strip (py_replace brand [] product_name);
            model = foldl (\<lambda>model word.
                      py_replace (py_lower word) []
                        (py_replace (py_upper word) [] (py_replace word [] model)))
                    model common_words
        in take 100 (py_strip model))"

section \<open>Metric Calculator\<close>

definition py_round2 :: "rat \<Rightarrow> rat" where
  \<comment> \<open>\<^verbatim>\<open>round(x, 2)\<close> on a float: the decimal with two places nearest to the value of
      \<^verbatim>\<open>x\<close> (a tie to the even one), read back as a float\<close>
  "py_round2 x = f64 (of_int (round_half_even (x * 100)) / 100)"

definition calculate_discount :: "rat \<Rightarrow> rat \<Rightarrow> rat" where
  "calculate_discount current_price original_price =
     (if original_price = 0 \<or> original_price \<le> current_price then 0
      else py_round2
             (float_mul (float_div (float_sub original_price current_price) original_price) 100))"

record price_range =
  budget :: rat
  premium :: rat

definition price_ranges :: "(string \<times> price_range) list" where
  "price_ranges =
     [(''ordinateurs-pc'', \<lparr>budget = 3000, premium = 10000\<rparr>),
      (''telephones-smartphones'', \<lparr>budget = 2000, premium = 6000\<rparr>),
      (''tv-home-cinema-lecteurs'', \<lparr>budget = 2500, premium = 8000\<rparr>),
      (''mlp-electromenager'', \<lparr>budget = 1500, premium = 5000\<rparr>),
      (''jeux-videos-consoles'', \<lparr>budget = 1000, premium = 4000\<rparr>)]"

definition ranges_for :: "string \<Rightarrow> price_range" where
  \<comment> \<open>\<^verbatim>\<open>price_ranges.get(category_key, {"budget": 1000, "premium": 5000})\<close>\<close>
  "ranges_for category_key =
     (case map_of price_ranges category_key of
        Some r \<Rightarrow> r
      | None \<Rightarrow> \<lparr>budget = 1000, premium = 5000\<rparr>)"

definition classify_price_tier :: "rat \<Rightarrow> string \<Rightarrow> string" where
  "classify_price_tier price category_key =
     (let ranges = ranges_for category_key
      in if price \<le> budget ranges then ''Budget''
         else if price \<le> premium ranges then ''Mid-range''
         else ''Premium'')"

definition calculate_value_score :: "rat \<Rightarrow> rat \<Rightarrow> rat \<Rightarrow> rat" where
  "calculate_value_score current_price original_price discount_percent =
     (let base_score = 50;
          discount_bonus = min (float_mul discount_percent (f64 (6 / 10))) 30;
          price_bonus =
            (if current_price < 1000 then 20
             else if current_price < 3000 then 10
             else if current_price < 5000 then 0
             else - 10);
          total_score = float_add (float_add base_score discount_bonus) price_bonus
      in py_round2 (max 0 (min 100 total_score)))"

section \<open>Product Builder\<close>

text \<open>
  What the selectors of \<^verbatim>\<open>extract_product_data\<close> find in one \<^verbatim>\<open>article.prd\<close>: the inner text of
  \<^verbatim>\<open>h3.name\<close>, \<^verbatim>\<open>div.prc\<close> and \<^verbatim>\<open>div.old\<close> (\<open>None\<close> when the element is missing), and for
  \<^verbatim>\<open>a.core\<close> its \<^verbatim>\<open>href\<close> attribute (\<open>None\<close> without the element, \<open>Some None\<close> for an element
  without the attribute). A container whose queries raise is \<open>Detached\<close>.
\<close>

record article =
  name_elem :: "string option"
  price_elem :: "string option"
  old_price_elem :: "string option"
  link_elem :: "string option option"

datatype container = Article article | Detached

text \<open>The record of one product; the three clock fields of the source are left out.\<close>

record product =
  product_id :: string
  product_name :: string
  brand :: string
  model :: string
  category :: string
  category_key :: string
  current_price :: rat
  original_price :: "rat option"
  discount_percent :: rat
  price_tier :: string
  value_score :: rat
  is_on_sale :: bool
  url :: string

fun show_nat :: "nat \<Rightarrow> string" where
  \<comment> \<open>the decimal digits of a number\<close>
  "show_nat n =
     (if n < 10 then [''0123456789'' ! n] else show_nat (n div 10) @ [''0123456789'' ! (n mod 10)])"

declare show_nat.simps [simp del]

definition format_04d :: "nat \<Rightarrow> string" where
  \<comment> \<open>the format \<^verbatim>\<open>{n:04d}\<close>: zeros in front up to four characters, never a cut\<close>
  "format_04d n = (let ds = show_nat n in take (4 - length ds) ''0000'' @ ds)"

definition extract_product_data :: "container \<Rightarrow> string \<Rightarrow> string \<Rightarrow> nat \<Rightarrow> product option" where
  "extract_product_data cont cat_key cat_name product_index =
     (case cont of
        Detached \<Rightarrow> None
      | Article a \<Rightarrow>
          let name = (case name_elem a of Some t \<Rightarrow> py_strip t | None \<Rightarrow> ''N/A'');
              current = clean_price (case price_elem a of Some t \<Rightarrow> t | None \<Rightarrow> ''0'');
              original = clean_price (case old_price_elem a of Some t \<Rightarrow> t | None \<Rightarrow> ''0'')
          in if current = 0 then None
             else
               let b = extract_brand name cat_key;
                   m = extract_model name b;
                   discount = calculate_discount current original;
                   product_url =
                     (case link_elem a of
                        None \<Rightarrow> []
                      | Some None \<Rightarrow> []
                      | Some (Some href) \<Rightarrow>
                          if href = [] then [] else ''https://www.jumia.ma'' @ href);
                   tier = classify_price_tier current cat_key;
                   score = calculate_value_score current original discount
               in Some \<lparr>product_id = ''JUM_'' @ format_04d product_index,
                         product_name = name,
                         brand = b,
                         model = m,
                         category = cat_name,
                         category_key = cat_key,
                         current_price = current,
                         original_price = (if 0 < original then Some original else None),
                         discount_percent = discount,
                         price_tier = tier,
                         value_score = score,
                         is_on_sale = (0 < discount),
                         url = product_url\<rparr>)"

section \<open>Page Processor, Category Runner and Run Orchestrator\<close>

record category_result =
  cr_name :: string
  products_found :: nat
  cr_pages_scraped :: nat

text \<open>
  The scraper object: \<^verbatim>\<open>self.products\<close>, \<^verbatim>\<open>self.categories_scraped\<close> and the counters of
  \<^verbatim>\<open>self.scraping_stats\<close> (its clock entries are left out).
\<close>

record scraper =
  products :: "product list"
  categories_scraped :: "string \<rightharpoonup> category_result"
  total_products :: nat
  categories_processed :: nat
  pages_scraped :: nat
  errors :: nat

definition new_scraper :: scraper where
  "new_scraper = \<lparr>products = [], categories_scraped = Map.empty, total_products = 0,
     categories_processed = 0, pages_scraped = 0, errors = 0\<rparr>"

fun process_from :: "scraper \<Rightarrow> container list \<Rightarrow> string \<Rightarrow> string \<Rightarrow> product list \<Rightarrow> product list" where
  \<comment> \<open>the loop of \<^verbatim>\<open>process_products\<close>; the last argument is \<^verbatim>\<open>page_products\<close> so far\<close>
  "process_from self [] cat_key cat_name page_products = page_products"
| "process_from self (c # cs) cat_key cat_name page_products =
     (let current_product_count = length (products self) + length page_products
      in case extract_product_data c cat_key cat_name (current_product_count + 1) of
           Some product_data \<Rightarrow> process_from self cs cat_key cat_name (page_products @ [product_data])
         | None \<Rightarrow> process_from self cs cat_key cat_name page_products)"

definition process_products :: "scraper \<Rightarrow> container list \<Rightarrow> string \<Rightarrow> string \<Rightarrow> product list" where
  \<comment> \<open>\<^verbatim>\<open>extract_product_data\<close> hands every exception back as \<open>None\<close>, so the handler of this
      loop is never entered and the scraper is left as it is\<close>
  "process_products self containers cat_key cat_name = process_from self containers cat_key cat_name []"

text \<open>
  What one turn of the page loop of \<^verbatim>\<open>scrape_category\<close> meets: the containers that
  \<^verbatim>\<open>query_selector_all\<close> returns; an exception in the body, which the handler of the loop
  takes (\<open>Failed\<close>); or an exception that also leaves that handler, raised while the handler
  runs before it counts the error (\<open>Crashed\<close>). The browser is a function of the category
  key and the page number.
\<close>

datatype fetched = Found "container list" | Failed | Crashed

type_synonym browser = "string \<Rightarrow> nat \<Rightarrow> fetched"

record category_info =
  ci_name :: string
  pages :: int
  expected_products :: "rat option"

datatype exit = Returned | Raised

fun page_loop :: "browser \<Rightarrow> string \<Rightarrow> string \<Rightarrow> nat list \<Rightarrow> scraper \<Rightarrow> product list \<Rightarrow> nat option
    \<Rightarrow> scraper \<times> (product list \<times> nat option) option" where
  \<comment> \<open>the \<^verbatim>\<open>for page_num in range(...)\<close> of \<^verbatim>\<open>scrape_category\<close>: the scraper, \<^verbatim>\<open>category_products\<close>
      and the value of \<^verbatim>\<open>page_num\<close> (\<open>None\<close> while it is unbound); the result \<open>None\<close> is an
      exception leaving the loop\<close>
  "page_loop page cat_key cat_name [] self category_products page_num =
     (self, Some (category_products, page_num))"
| "page_loop page cat_key cat_name (n # ns) self category_products page_num =
     (case page cat_key n of
        Crashed \<Rightarrow> (self, None)
      | Failed \<Rightarrow>
          page_loop page cat_key cat_name ns (self\<lparr>errors := errors self + 1\<rparr>) category_products (Some n)
      | Found product_containers \<Rightarrow>
          if product_containers = [] then (self, Some (category_products, Some n))
          else
            let page_products = process_products self product_containers cat_key cat_name
            in page_loop page cat_key cat_name ns (self\<lparr>pages_scraped := pages_scraped self + 1\<rparr>)
                 (category_products @ page_products) (Some n))"

definition scrape_category :: "browser \<Rightarrow> string \<Rightarrow> category_info \<Rightarrow> scraper \<Rightarrow> scraper \<times> exit" where
  \<comment> \<open>with an empty range \<^verbatim>\<open>page_num\<close> is unbound where the result is stored, and the
      read raises\<close>
  "scrape_category page cat_key info self =
     (case page_loop page cat_key (ci_name info) [1 ..< nat (pages info + 1)] self [] None of
        (self1, None) \<Rightarrow> (self1, Raised)
      | (self1, Some (category_products, None)) \<Rightarrow> (self1, Raised)
      | (self1, Some (category_products, Some page_num)) \<Rightarrow>
          let self2 = self1\<lparr>categories_scraped := (categories_scraped self1)
                        (cat_key \<mapsto> \<lparr>cr_name = ci_name info,
                                      products_found = length category_products,
                                      cr_pages_scraped = page_num\<rparr>)\<rparr>;
              self3 = self2\<lparr>products := products self2 @ category_products\<rparr>
          in (self3\<lparr>total_products := length (products self3)\<rparr>, Returned))"

fun scrape_categories :: "browser \<Rightarrow> (string \<times> category_info) list \<Rightarrow> scraper \<Rightarrow> scraper" where
  \<comment> \<open>the loop over \<^verbatim>\<open>self.categories.items()\<close> of \<^verbatim>\<open>scrape_all_categories\<close>\<close>
  "scrape_categories page [] self = self"
| "scrape_categories page ((cat_key, info) # rest) self =
     (case scrape_category page cat_key info self of
        (self1, Returned) \<Rightarrow>
          scrape_categories page rest (self1\<lparr>categories_processed := categories_processed self1 + 1\<rparr>)
      | (self1, Raised) \<Rightarrow>
          scrape_categories page rest (self1\<lparr>errors := errors self1 + 1\<rparr>))"

record base_category =
  bc_name :: string
  default_pages :: int
  bc_expected_products :: int

definition base_categories :: "(string \<times> base_category) list" where
  "base_categories =
     [(''ordinateurs-pc'',
        \<lparr>bc_name = ''Laptops & Computers'', default_pages = 4, bc_expected_products = 80\<rparr>),
      (''telephones-smartphones'',
        \<lparr>bc_name = ''Smartphones'', default_pages = 4, bc_expected_products = 80\<rparr>),
      (''tv-home-cinema-lecteurs'',
        \<lparr>bc_name = ''Televisions'', default_pages = 3, bc_expected_products = 60\<rparr>),
      (''mlp-electromenager'',
        \<lparr>bc_name = ''Home Appliances'', default_pages = 3, bc_expected_products = 60\<rparr>),
      (''jeux-videos-consoles'',
        \<lparr>bc_name = ''Gaming'', default_pages = 2, bc_expected_products = 40\<rparr>)]"

text \<open>The values a caller can pass as \<^verbatim>\<open>max_pages_per_category\<close>.\<close>

datatype pyval = PyNone | PyInt int | PyBool bool | PyFloat rat | PyStr string

datatype py_error = TypeError | ZeroDivisionError | OverflowError

definition isinstance_int :: "pyval \<Rightarrow> bool" where
  \<comment> \<open>\<^verbatim>\<open>isinstance(v, int)\<close>; \<^verbatim>\<open>bool\<close> is a subclass of \<^verbatim>\<open>int\<close>\<close>
  "isinstance_int v = (case v of PyInt _ \<Rightarrow> True | PyBool _ \<Rightarrow> True | _ \<Rightarrow> False)"

definition py_ge :: "pyval \<Rightarrow> int \<Rightarrow> py_error + bool" where
  \<comment> \<open>\<^verbatim>\<open>v >= n\<close> for an integer \<^verbatim>\<open>n\<close>: no order between \<^verbatim>\<open>None\<close> or a string and a number\<close>
  "py_ge v n =
     (case v of
        PyInt i \<Rightarrow> Inr (n \<le> i)
      | PyBool b \<Rightarrow> Inr (n \<le> (if b then 1 else 0))
      | PyFloat r \<Rightarrow> Inr (of_int n \<le> r)
      | PyNone \<Rightarrow> Inl TypeError
      | PyStr _ \<Rightarrow> Inl TypeError)"

definition int_of_pyval :: "pyval \<Rightarrow> int" where
  \<comment> \<open>the number an \<^verbatim>\<open>int\<close> (or \<^verbatim>\<open>bool\<close>) stands for; read only behind \<open>isinstance_int\<close>\<close>
  "int_of_pyval v = (case v of PyInt i \<Rightarrow> i | PyBool b \<Rightarrow> (if b then 1 else 0) | _ \<Rightarrow> 0)"

definition override_applies :: "pyval \<Rightarrow> py_error + bool" where
  \<comment> \<open>\<^verbatim>\<open>isinstance(m, int) and m >= 1\<close>: the comparison runs only behind the type test\<close>
  "override_applies m = (if isinstance_int m then py_ge m 1 else Inr False)"

definition float_limit :: rat where
  \<comment> \<open>the least magnitude that rounds beyond the largest float: half a step above it\<close>
  "float_limit = 2 ^ 1024 - 2 ^ 970"

definition int_truediv :: "int \<Rightarrow> int \<Rightarrow> py_error + rat" where
  \<comment> \<open>\<^verbatim>\<open>a / b\<close> on two \<^verbatim>\<open>int\<close>s: the quotient rounded to a float; it raises when the
      divisor is 0 and when the quotient rounds beyond the largest float\<close>
  "int_truediv a b =
     (if b = 0 then Inl ZeroDivisionError
      else if float_limit \<le> \<bar>of_int a / of_int b\<bar> then Inl OverflowError
      else Inr (f64 (of_int a / of_int b)))"

definition float_mul_inf :: "rat \<Rightarrow> rat \<Rightarrow> rat option" where
  \<comment> \<open>a product of floats that may leave the range: it does not raise, the result is then
      infinite (\<open>None\<close>)\<close>
  "float_mul_inf x y = (if float_limit \<le> \<bar>x * y\<bar> then None else Some (f64 (x * y)))"

fun categories_from :: "pyval \<Rightarrow> (string \<times> base_category) list \<Rightarrow> py_error + (string \<times> category_info) list" where
  \<comment> \<open>the loop that fills \<^verbatim>\<open>categories_to_scrape\<close>; the division in the entry of a category
      stands outside every handler, so its error ends the run\<close>
  "categories_from m [] = Inr []"
| "categories_from m ((cat_key, info) # rest) =
     (case override_applies m of
        Inl e \<Rightarrow> Inl e
      | Inr ov \<Rightarrow>
          let pgs = (if ov then int_of_pyval m else default_pages info)
          in (case int_truediv pgs (default_pages info) of
                Inl e \<Rightarrow> Inl e
              | Inr ratio \<Rightarrow>
                  let entry = (cat_key, \<lparr>ci_name = bc_name info, pages = pgs,
                         expected_products =
                           float_mul_inf (of_int (bc_expected_products info)) ratio\<rparr>)
                  in (case categories_from m rest of
                        Inl e \<Rightarrow> Inl e
                      | Inr es \<Rightarrow> Inr (entry # es))))"

definition categories_to_scrape :: "pyval \<Rightarrow> py_error + (string \<times> category_info) list" where
  "categories_to_scrape max_pages_per_category = categories_from max_pages_per_category base_categories"

definition finalize_scraping :: "scraper \<Rightarrow> scraper" where
  "finalize_scraping self = self\<lparr>total_products := length (products self)\<rparr>"

definition scrape_all_categories :: "pyval \<Rightarrow> browser \<Rightarrow> scraper \<Rightarrow> py_error + scraper" where
  \<comment> \<open>the run up to the hand-over to \<^verbatim>\<open>save_data\<close>\<close>
  "scrape_all_categories max_pages_per_category page self =
     (case categories_to_scrape max_pages_per_category of
        Inl e \<Rightarrow> Inl e
      | Inr cats \<Rightarrow> Inr (finalize_scraping (scrape_categories page cats self)))"

section \<open>Spellings, pages and browsers used below\<close>

text \<open>The stop words of \<^verbatim>\<open>extract_model\<close> in the three spellings it removes, in its order.\<close>

definition stop_spellings :: "string list" where
  "stop_spellings =
     [''Laptop'', ''LAPTOP'', ''laptop'', ''Smartphone'', ''SMARTPHONE'', ''smartphone'',
      ''TV'', ''TV'', ''tv'', ''Inch'', ''INCH'', ''inch'', ''GB'', ''GB'', ''gb'',
      ''TB'', ''TB'', ''tb'', ''RAM'', ''RAM'', ''ram'', ''SSD'', ''SSD'', ''ssd'',
      ''HDD'', ''HDD'', ''hdd'']"

text \<open>Two containers as \<^verbatim>\<open>extract_product_data\<close> can meet them, and three more for whole pages.\<close>

definition marked_down_wrongly :: article where
  "marked_down_wrongly = \<lparr>name_elem = Some ''HP 15s'', price_elem = Some ''1,000.00 Dhs'',
     old_price_elem = Some ''500.00 Dhs'', link_elem = Some (Some ''/hp-15s.html'')\<rparr>"

definition absolute_link :: article where
  "absolute_link = \<lparr>name_elem = Some ''HP 15s'', price_elem = Some ''1,000.00 Dhs'',
     old_price_elem = None, link_elem = Some (Some ''https://www.jumia.ma/hp-15s.html'')\<rparr>"

definition laptop_a :: article where
  "laptop_a = \<lparr>name_elem = Some ''HP 15s'', price_elem = Some ''4,999.00 Dhs'',
     old_price_elem = None, link_elem = Some (Some ''/hp-15s.html'')\<rparr>"

definition laptop_b :: article where
  "laptop_b = \<lparr>name_elem = Some ''Dell Vostro'', price_elem = Some ''6,250 Dhs'',
     old_price_elem = Some ''7,000 Dhs'', link_elem = Some (Some ''/dell-vostro.html'')\<rparr>"

definition unpriced :: article where
  "unpriced = \<lparr>name_elem = Some ''Lenovo Yoga'', price_elem = Some ''N/A'',
     old_price_elem = None, link_elem = Some (Some ''/lenovo-yoga.html'')\<rparr>"

definition one_per_page :: browser where
  \<comment> \<open>one product on each of the first two pages of the laptops, nothing anywhere else\<close>
  "one_per_page cat_key n =
     (if cat_key = ''ordinateurs-pc'' \<and> n = 1 then Found [Article laptop_a]
      else if cat_key = ''ordinateurs-pc'' \<and> n = 2 then Found [Article laptop_b]
      else Found [])"

definition three_then_none :: browser where
  \<comment> \<open>page 1 with three containers, one of them without a price; no container afterwards\<close>
  "three_then_none cat_key n =
     (if n = 1 then Found [Article laptop_a, Article unpriced, Article laptop_b] else Found [])"


definition two_pages :: category_info where
  "two_pages = \<lparr>ci_name = ''Gaming'', pages = 2, expected_products = Some 40\<rparr>"

section \<open>Properties of binary64 rounding\<close>

lemma bitlen_powi:
  assumes "0 < p"
  shows "(2::rat) powi (bitlen p - 1) \<le> of_int p" and "of_int p < (2::rat) powi (bitlen p)"
proof -
  from assms have b: "1 \<le> bitlen p" by (auto simp: bitlen_alt_def)
  from bitlen_bounds [OF assms] have "2 ^ nat (bitlen p - 1) \<le> p" "p < 2 ^ nat (bitlen p)"
    by simp_all
  then have "(of_int (2 ^ nat (bitlen p - 1)) :: rat) \<le> of_int p"
    "(of_int p :: rat) < of_int (2 ^ nat (bitlen p))"
    by (simp_all only: of_int_le_iff of_int_less_iff)
  with b show "(2::rat) powi (bitlen p - 1) \<le> of_int p" "of_int p < (2::rat) powi (bitlen p)"
    by (simp_all add: power_int_nonneg_exp)
qed

lemma ilog2_bounds:
  assumes "0 < x"
  shows "2 powi (ilog2 x) \<le> x" and "x < 2 powi (ilog2 x + 1)"
proof -
  obtain p q where pq: "quotient_of x = (p, q)" by (cases "quotient_of x")
  then have q: "0 < q" and x: "x = of_int p / of_int q"
    by (rule quotient_of_denom_pos, rule quotient_of_div)
  with assms have p: "0 < p" by (simp add: zero_less_divide_iff)
  define e where "e = bitlen p - bitlen q"
  note bp = bitlen_powi [OF p] and bq = bitlen_powi [OF q]
  have qpos: "(0::rat) < of_int q" using q by simp
  have lo: "2 powi (e - 1) \<le> x"
  proof -
    have "(2::rat) powi (e - 1) = 2 powi (bitlen p - 1) / 2 powi (bitlen q)"
      by (simp add: e_def power_int_diff)
    also have "\<dots> \<le> of_int p / 2 powi (bitlen q)"
      using bp(1) by (simp add: divide_right_mono)
    also have "\<dots> \<le> of_int p / of_int q"
      using bq(2) p qpos by (intro divide_left_mono) (simp_all add: less_imp_le)
    finally show ?thesis by (simp add: x)
  qed
  have hi: "x < 2 powi (e + 1)"
  proof -
    have "x = of_int p / of_int q" by (rule x)
    also have "\<dots> < 2 powi (bitlen p) / of_int q"
      using bp(2) qpos by (simp add: divide_strict_right_mono)
    also have "\<dots> \<le> 2 powi (bitlen p) / 2 powi (bitlen q - 1)"
      using bq(1) qpos by (intro divide_left_mono) (simp_all add: zero_less_mult_iff)
    also have "\<dots> = 2 powi (e + 1)"
      by (simp add: e_def power_int_diff [symmetric] algebra_simps)
    finally show ?thesis .
  qed
  have il: "ilog2 x = (if x < 2 powi e then e - 1 else e)"
    by (simp add: ilog2_def pq e_def Let_def)
  show "2 powi (ilog2 x) \<le> x" using lo by (simp add: il)
  show "x < 2 powi (ilog2 x + 1)" using hi by (simp add: il)
qed

lemma powi2_less_D: "(2::rat) powi a < 2 powi b \<Longrightarrow> a < b"
  using power_int_increasing [of b a "2::rat"] by (cases "a < b") auto

lemma powi2_mono: "a \<le> b \<Longrightarrow> (2::rat) powi a \<le> 2 powi b"
  by (rule power_int_increasing) simp_all

lemma ilog2_unique:
  assumes "0 < x" and "2 powi e \<le> x" and "x < 2 powi (e + 1)"
  shows "ilog2 x = e"
proof -
  note b = ilog2_bounds [OF assms(1)]
  have "(2::rat) powi (ilog2 x) < 2 powi (e + 1)" using b(1) assms(3) by (rule le_less_trans)
  then have 1: "ilog2 x < e + 1" by (rule powi2_less_D)
  have "(2::rat) powi e < 2 powi (ilog2 x + 1)" using assms(2) b(2) by (rule le_less_trans)
  then have 2: "e < ilog2 x + 1" by (rule powi2_less_D)
  from 1 2 show ?thesis by simp
qed

lemma ilog2_less:
  assumes "0 < x" and "x < 2 powi n"
  shows "ilog2 x < n"
proof -
  have "(2::rat) powi (ilog2 x) < 2 powi n"
    using ilog2_bounds(1) [OF assms(1)] assms(2) by (rule le_less_trans)
  then show ?thesis by (rule powi2_less_D)
qed

subsection \<open>Rounding to an integer\<close>

lemma round_half_even_bounds:
  "\<lfloor>y\<rfloor> \<le> round_half_even y \<and> round_half_even y \<le> \<lceil>y\<rceil>"
proof (cases "y - of_int \<lfloor>y\<rfloor> < 1 / 2")
  case True
  then have "round_half_even y = \<lfloor>y\<rfloor>" by (simp add: round_half_even_def Let_def)
  then show ?thesis by (simp add: floor_le_ceiling)
next
  case False
  then have "of_int \<lfloor>y\<rfloor> < y" by simp
  moreover have "y \<le> of_int \<lceil>y\<rceil>" by (rule le_of_int_ceiling)
  ultimately have "(of_int \<lfloor>y\<rfloor> :: rat) < of_int \<lceil>y\<rceil>" by (rule less_le_trans)
  then have lt: "\<lfloor>y\<rfloor> < \<lceil>y\<rceil>" by (simp only: of_int_less_iff)
  have "round_half_even y = \<lfloor>y\<rfloor> \<or> round_half_even y = \<lfloor>y\<rfloor> + 1"
    by (simp add: round_half_even_def Let_def)
  with lt show ?thesis by auto
qed

lemma round_half_even_of_int [simp]: "round_half_even (of_int k) = k"
  by (simp add: round_half_even_def)

lemma round_half_even_numeral [simp]: "round_half_even (numeral n) = numeral n"
  using round_half_even_of_int [of "numeral n"] by simp

lemma round_half_even_le:
  assumes "y \<le> of_int k"
  shows "round_half_even y \<le> k"
proof -
  from assms have "\<lceil>y\<rceil> \<le> k" by (simp only: ceiling_le_iff)
  with round_half_even_bounds [of y] show ?thesis by linarith
qed

lemma round_half_even_ge:
  assumes "of_int k \<le> y"
  shows "k \<le> round_half_even y"
proof -
  from assms have "k \<le> \<lfloor>y\<rfloor>" by (simp only: le_floor_iff)
  with round_half_even_bounds [of y] show ?thesis by linarith
qed

lemma round_half_even_near: "\<bar>of_int (round_half_even y) - y\<bar> \<le> 1 / 2"
proof -
  have f: "of_int \<lfloor>y\<rfloor> \<le> y" "y < of_int \<lfloor>y\<rfloor> + 1" by linarith+
  show ?thesis
  proof (cases "y - of_int \<lfloor>y\<rfloor> < 1 / 2")
    case True
    then have "round_half_even y = \<lfloor>y\<rfloor>" by (simp add: round_half_even_def Let_def)
    with True f show ?thesis by simp
  next
    case False
    show ?thesis
    proof (cases "1 / 2 < y - of_int \<lfloor>y\<rfloor>")
      case True
      with False have "round_half_even y = \<lfloor>y\<rfloor> + 1" by (simp add: round_half_even_def Let_def)
      with True f show ?thesis by simp
    next
      case h: False
      with False have d: "y - of_int \<lfloor>y\<rfloor> = 1 / 2" by simp
      have "round_half_even y = \<lfloor>y\<rfloor> \<or> round_half_even y = \<lfloor>y\<rfloor> + 1"
        by (simp add: round_half_even_def Let_def)
      with d show ?thesis by auto
    qed
  qed
qed

subsection \<open>Rounding to binary64\<close>

lemma f64_zero [simp]: "f64 0 = 0"
  by (simp add: f64_def)

lemma f64_pos:
  assumes "0 < x"
  shows "f64 x = of_int (round_half_even (x / 2 powi (max (ilog2 x - 52) (- 1074))))
                   * 2 powi (max (ilog2 x - 52) (- 1074))"
  using assms by (simp add: f64_def Let_def)

lemma f64_eval:
  assumes "0 < x" and "2 powi e \<le> x" and "x < 2 powi (e + 1)"
  shows "f64 x = of_int (round_half_even (x / 2 powi (max (e - 52) (- 1074))))
                   * 2 powi (max (e - 52) (- 1074))"
  using f64_pos [OF assms(1)] ilog2_unique [OF assms] by simp

lemma f64_nonneg:
  assumes "0 \<le> x"
  shows "0 \<le> f64 x"
proof (cases "x = 0")
  case True
  then show ?thesis by simp
next
  case False
  with assms have x: "0 < x" by simp
  define q :: rat where "q = 2 powi (max (ilog2 x - 52) (- 1074))"
  have q: "0 < q" by (simp add: q_def)
  with x have "of_int 0 \<le> x / q" by simp
  then have "0 \<le> round_half_even (x / q)" by (rule round_half_even_ge)
  with q show ?thesis by (simp add: f64_pos [OF x] q_def [symmetric])
qed

lemma int_over_powi2:
  assumes "k \<le> 0"
  shows "of_int N / (2::rat) powi k = of_int (N * 2 ^ nat (- k))"
proof -
  have "(2::rat) powi k = 1 / 2 powi (- k)" by (simp add: power_int_minus_divide)
  also have "(2::rat) powi (- k) = 2 ^ nat (- k)" using assms by (simp add: power_int_nonneg_exp)
  finally show ?thesis by simp
qed

lemma f64_le_int:
  assumes "0 \<le> x" and "x \<le> of_int N" and "x < 2 powi 53"
  shows "f64 x \<le> of_int N"
proof (cases "x = 0")
  case True
  with assms show ?thesis by simp
next
  case False
  with assms have x: "0 < x" by simp
  define k where "k = max (ilog2 x - 52) (- 1074)"
  define q :: rat where "q = 2 powi k"
  have q: "0 < q" by (simp add: q_def)
  have "ilog2 x < 53" using x assms(3) by (rule ilog2_less)
  then have k: "k \<le> 0" by (simp add: k_def)
  have "x / q \<le> of_int N / q" using assms(2) q by (simp add: divide_right_mono)
  also have "\<dots> = of_int (N * 2 ^ nat (- k))" unfolding q_def by (rule int_over_powi2 [OF k])
  finally have "round_half_even (x / q) \<le> N * 2 ^ nat (- k)" by (rule round_half_even_le)
  then have "(of_int (round_half_even (x / q)) :: rat) \<le> of_int (N * 2 ^ nat (- k))"
    by (simp only: of_int_le_iff)
  also have "\<dots> = of_int N / q" unfolding q_def by (rule int_over_powi2 [OF k, symmetric])
  finally have "of_int (round_half_even (x / q)) * q \<le> of_int N"
    using q by (simp add: pos_le_divide_eq)
  then show ?thesis by (simp add: f64_pos [OF x] q_def k_def)
qed

lemma f64_ge_int:
  assumes "of_int N \<le> x" and "0 < x" and "x < 2 powi 53"
  shows "of_int N \<le> f64 x"
proof -
  note x = assms(2)
  define k where "k = max (ilog2 x - 52) (- 1074)"
  define q :: rat where "q = 2 powi k"
  have q: "0 < q" by (simp add: q_def)
  have "ilog2 x < 53" using x assms(3) by (rule ilog2_less)
  then have k: "k \<le> 0" by (simp add: k_def)
  have "of_int (N * 2 ^ nat (- k)) = of_int N / q"
    unfolding q_def by (rule int_over_powi2 [OF k, symmetric])
  also have "\<dots> \<le> x / q" using assms(1) q by (simp add: divide_right_mono)
  finally have "N * 2 ^ nat (- k) \<le> round_half_even (x / q)" by (rule round_half_even_ge)
  then have "(of_int (N * 2 ^ nat (- k)) :: rat) \<le> of_int (round_half_even (x / q))"
    by (simp only: of_int_le_iff)
  then have "of_int N / q \<le> of_int (round_half_even (x / q))"
    by (simp only: int_over_powi2 [OF k] q_def)
  then have "of_int N \<le> of_int (round_half_even (x / q)) * q"
    using q by (simp add: pos_divide_le_eq)
  then show ?thesis by (simp add: f64_pos [OF x] q_def k_def)
qed

lemma f64_of_int:
  assumes "0 \<le> n" and "n < 2 ^ 53"
  shows "f64 (of_int n) = of_int n"
proof (cases "n = 0")
  case True
  then show ?thesis by simp
next
  case False
  with assms have p: "(0::rat) < of_int n" by simp
  have "(of_int n :: rat) < of_int (2 ^ 53)" using assms(2) by (simp only: of_int_less_iff)
  then have b: "(of_int n :: rat) < 2 powi 53" by simp
  have "f64 (of_int n) \<le> of_int n" using assms(1) b by (intro f64_le_int) simp_all
  moreover have "of_int n \<le> f64 (of_int n)" using p b by (intro f64_ge_int) simp_all
  ultimately show ?thesis by simp
qed

lemma f64_error:
  assumes "0 \<le> x" and "x < 2 powi n" and "- 1021 \<le> n"
  shows "\<bar>f64 x - x\<bar> \<le> 2 powi (n - 54)"
proof (cases "x = 0")
  case True
  then show ?thesis by simp
next
  case False
  with assms have x: "0 < x" by simp
  define k where "k = max (ilog2 x - 52) (- 1074)"
  define q :: rat where "q = 2 powi k"
  have q: "0 < q" by (simp add: q_def)
  have "ilog2 x < n" using x assms(2) by (rule ilog2_less)
  with assms(3) have k: "k - 1 \<le> n - 54" by (simp add: k_def)
  have "f64 x - x = (of_int (round_half_even (x / q)) - x / q) * q"
    using q by (simp add: f64_pos [OF x] q_def k_def algebra_simps)
  then have "\<bar>f64 x - x\<bar> = \<bar>of_int (round_half_even (x / q)) - x / q\<bar> * q"
    using q by (simp add: abs_mult)
  also have "\<dots> \<le> 1 / 2 * q"
    using round_half_even_near [of "x / q"] q by (intro mult_right_mono) simp_all
  also have "\<dots> = 2 powi (k - 1)"
    by (simp add: q_def power_int_diff)
  also have "\<dots> \<le> 2 powi (n - 54)" using k by (rule powi2_mono)
  finally show ?thesis .
qed

lemma f64_numeral [simp]:
  "numeral n < (2 ^ 53 :: int) \<Longrightarrow> f64 (numeral n) = numeral n"
  using f64_of_int [of "numeral n"] by simp

lemma floor_rat_numeral_div: "\<lfloor>numeral a / numeral b :: rat\<rfloor> = numeral a div numeral b"
  using floor_divide_of_int_eq [of "numeral a" "numeral b", where ?'a = rat] by simp

lemmas round_defs = round_half_even_def Let_def floor_rat_numeral_div

lemma f64_six_tenths: "f64 (6 / 10) = 5404319552844595 / 2 ^ 53"
proof -
  have "f64 (6 / 10) = of_int (round_half_even (6 / 10 / 2 powi (max (- 1 - 52) (- 1074))))
                   * 2 powi (max (- 1 - 52) (- 1074))"
    by (rule f64_eval) simp_all
  then show ?thesis by (simp add: round_defs power_int_minus_divide)
qed

lemma f64_three_fifths: "f64 (3 / 5) = 5404319552844595 / 2 ^ 53"
  using f64_six_tenths by simp

lemma f64_small_error:
  assumes "0 \<le> x" and "x \<le> 100"
  shows "\<bar>f64 x - x\<bar> \<le> 1 / 2 ^ 47"
proof -
  have "x < 2 powi 7" using assms(2) by simp
  from f64_error [OF assms(1) this] show ?thesis by (simp add: power_int_minus_divide)
qed

lemma f64_between:
  assumes "of_int a \<le> x" and "x \<le> of_int b" and "0 \<le> a" and "b \<le> 100"
  shows "of_int a \<le> f64 x \<and> f64 x \<le> of_int b"
proof -
  have "(of_int b :: rat) \<le> of_int 100" using assms(4) by (simp only: of_int_le_iff)
  with assms(2) have x100: "x \<le> 100" by simp
  then have lt: "x < 2 powi 53" by simp
  have "(of_int 0 :: rat) \<le> of_int a" using assms(3) by (simp only: of_int_le_iff)
  with assms(1) have x0: "0 \<le> x" by simp
  have hi: "f64 x \<le> of_int b" using x0 assms(2) lt by (rule f64_le_int)
  have lo: "of_int a \<le> f64 x"
  proof (cases "x = 0")
    case True
    with assms(1) show ?thesis by simp
  next
    case False
    with x0 have "0 < x" by simp
    with assms(1) lt show ?thesis by (intro f64_ge_int)
  qed
  from lo hi show ?thesis ..
qed

section \<open>Properties of the Text Normalizer\<close>

lemma of_char_nat_eqD: "(of_char c :: nat) = n \<Longrightarrow> n = of_char d \<Longrightarrow> c = d"
  by simp

lemma is_digit_iff: "is_digit c \<longleftrightarrow> c \<in> set ''0123456789''"
proof
  assume "is_digit c"
  then have "(of_char c :: nat) = 48 \<or> (of_char c :: nat) = 49 \<or> (of_char c :: nat) = 50
      \<or> (of_char c :: nat) = 51 \<or> (of_char c :: nat) = 52 \<or> (of_char c :: nat) = 53
      \<or> (of_char c :: nat) = 54 \<or> (of_char c :: nat) = 55 \<or> (of_char c :: nat) = 56
      \<or> (of_char c :: nat) = 57"
    unfolding is_digit_def by arith
  then have "c = CHR ''0'' \<or> c = CHR ''1'' \<or> c = CHR ''2'' \<or> c = CHR ''3'' \<or> c = CHR ''4''
      \<or> c = CHR ''5'' \<or> c = CHR ''6'' \<or> c = CHR ''7'' \<or> c = CHR ''8'' \<or> c = CHR ''9''"
    by (elim disjE) (simp_all add: of_char_nat_eqD)
  then show "c \<in> set ''0123456789''" by auto
next
  assume "c \<in> set ''0123456789''"
  then show "is_digit c" by (auto simp: is_digit_def)
qed

lemma filter_dropWhile_disjoint:
  "(\<And>x. Q x \<Longrightarrow> \<not> P x) \<Longrightarrow> filter P (dropWhile Q xs) = filter P xs"
  by (induction xs) auto

lemma py_space_not_price: "py_space c \<Longrightarrow> \<not> (is_digit c \<or> c = CHR '','' \<or> c = CHR ''.'')"
  by (auto simp: py_space_def is_digit_def Let_def)

lemma re_sub_strip: "re_sub_non_price (py_strip s) = re_sub_non_price s"
proof -
  let ?P = "\<lambda>c. is_digit c \<or> c = CHR '','' \<or> c = CHR ''.''"
  have d: "filter ?P (dropWhile py_space xs) = filter ?P xs" for xs
    by (rule filter_dropWhile_disjoint) (use py_space_not_price in blast)
  have "filter ?P (py_strip s) = rev (filter ?P (dropWhile py_space (rev (dropWhile py_space s))))"
    by (simp add: py_strip_def rev_filter)
  also have "\<dots> = rev (filter ?P (rev (dropWhile py_space s)))" by (simp only: d)
  also have "\<dots> = filter ?P s" by (simp add: rev_filter d)
  finally show ?thesis by (simp add: re_sub_non_price_def)
qed

lemma replace_char_empty: "replace_from [c] [] 0 s = filter (\<lambda>x. x \<noteq> c) s"
  by (induction s) auto

lemma py_float_nonneg: "py_float s = Some v \<Longrightarrow> 0 \<le> v"
  by (auto simp: py_float_def Let_def f64_nonneg split: list.splits if_splits)

lemma py_float_Nil: "py_float [] = None"
  by (simp add: py_float_def)

lemma py_float_no_digit: "list_all (\<lambda>c. \<not> is_digit c) s \<Longrightarrow> py_float s = None"
  by (cases s) (auto simp: py_float_def Let_def list_all_iff split: list.splits)

lemma clean_price_nonneg: "0 \<le> clean_price s"
  by (auto simp: clean_price_def Let_def py_float_nonneg split: option.splits)

lemma clean_price_eq_spec: "clean_price s = clean_price_spec s"
proof (cases "s = []")
  case True then show ?thesis by (simp add: clean_price_def clean_price_spec_def py_float_Nil)
next
  case False
  have k: "filter (\<lambda>c. c \<in> set ''0123456789,.'') s = re_sub_non_price s"
    unfolding re_sub_non_price_def by (rule filter_cong) (auto simp: is_digit_iff)
  show ?thesis
    using False
    by (simp add: clean_price_def clean_price_spec_def Let_def re_sub_strip py_replace_def
        replace_char_empty k py_float_Nil del: set_simps)
qed

lemma clean_price_no_digit:
  assumes "list_all (\<lambda>c. \<not> is_digit c) s"
  shows "clean_price s = 0"
proof -
  have "list_all (\<lambda>c. \<not> is_digit c)
          (filter (\<lambda>c. c \<noteq> CHR '','') (filter (\<lambda>c. c \<in> set ''0123456789,.'') s))"
    using assms by (simp add: list_all_iff)
  then show ?thesis
    by (simp add: clean_price_eq_spec clean_price_spec_def py_float_no_digit del: set_simps)
qed

lemmas text_defs = clean_price_def re_sub_non_price_def py_strip_def py_replace_def py_float_def
  py_space_def is_digit_def digits_val_def digit_val_def

lemma f64_1234_56: "f64 1234.56 = 2714826150374277 / 2 ^ 41"
proof -
  have "f64 1234.56
      = of_int (round_half_even (1234.56 / 2 powi (max (10 - 52) (- 1074))))
          * 2 powi (max (10 - 52) (- 1074))"
    by (rule f64_eval) simp_all
  then show ?thesis by (simp add: round_defs power_int_minus_divide)
qed

text \<open>
  Claim C5. \<^verbatim>\<open>clean_price\<close> returns for every text, and what it returns is never negative; it
  is the number read from the text once every character that is not a digit, a comma or a
  period has gone and the commas after them, and 0 where nothing is left or the rest does
  not parse (so for every text without a digit). The text ``1,234.56 MAD'' gives the float
  1234.56 (the binary64 value nearest to that decimal), the empty text gives 0 and ``N/A''
  gives 0.
\<close>

theorem clean_price_total:
  "0 \<le> clean_price s \<and> clean_price s = clean_price_spec s
   \<and> (list_all (\<lambda>c. \<not> is_digit c) s \<longrightarrow> clean_price s = 0)
   \<and> clean_price ''1,234.56 MAD'' = f64 1234.56
   \<and> f64 1234.56 = 2714826150374277 / 2 ^ 41
   \<and> clean_price [] = 0 \<and> clean_price ''N/A'' = 0"
proof -
  have "clean_price ''1,234.56 MAD'' = f64 1234.56" by (simp add: text_defs)
  moreover have "clean_price [] = 0" by (simp add: clean_price_def)
  moreover have "clean_price ''N/A'' = 0" by (simp add: text_defs)
  ultimately show ?thesis
    using clean_price_nonneg clean_price_eq_spec clean_price_no_digit f64_1234_56 by blast
qed

theorem clean_price_total_witness:
  "list_all (\<lambda>c. \<not> is_digit c) ''Dhs'' \<and> clean_price ''Dhs'' = 0 \<and> clean_price_spec ''Dhs'' = 0"
  using clean_price_total [of "''Dhs''"] by (simp add: is_digit_def)

section \<open>Properties of the Attribute Inferencer\<close>

lemma common_words_cases:
  "concat (map (\<lambda>w. [w, py_upper w, py_lower w]) common_words) = stop_spellings"
  by code_simp

lemma foldl_three_spellings:
  "foldl (\<lambda>m w. py_replace (py_lower w) [] (py_replace (py_upper w) [] (py_replace w [] m))) m0 ws
   = foldl (\<lambda>m w. py_replace w [] m) m0 (concat (map (\<lambda>w. [w, py_upper w, py_lower w]) ws))"
  by (induction ws arbitrary: m0) simp_all

text \<open>
  Claim C6, as amended. When the brand is ``Unknown'' or does not occur in the name (case
  matters), \<^verbatim>\<open>extract_model\<close> returns the first 100 characters of the name. Otherwise it
  removes the brand from the name and trims it, then removes each stop word in three
  spellings only (as listed, upper case, lower case), one \<^verbatim>\<open>replace\<close> after the other in
  the order of the list, trims again and keeps the first 100 characters. The result never
  has more than 100 characters.
\<close>

theorem extract_model_spellings:
  "extract_model name b =
     (if b = ''Unknown'' \<or> \<not> py_in b name then take 100 name
      else take 100 (py_strip (foldl (\<lambda>m w. py_replace w [] m)
                       (py_strip (py_replace b [] name)) stop_spellings)))
   \<and> length (extract_model name b) \<le> 100"
proof -
  have "extract_model name b =
     (if b = ''Unknown'' \<or> \<not> py_in b name then take 100 name
      else take 100 (py_strip (foldl (\<lambda>m w. py_replace w [] m)
                       (py_strip (py_replace b [] name)) stop_spellings)))"
    by (simp only: extract_model_def Let_def foldl_three_spellings common_words_cases)
  moreover have "length (extract_model name b) \<le> 100"
    by (simp add: extract_model_def Let_def)
  ultimately show ?thesis by (rule conjI)
qed

theorem extract_model_spellings_witness:
  "extract_model ''HP Pavilion Laptop 15 8GB RAM'' ''HP'' = ''Pavilion  15 8''
   \<and> length (extract_model ''HP Pavilion Laptop 15 8GB RAM'' ''HP'') \<le> 100"
proof -
  have "(if ''HP'' = ''Unknown'' \<or> \<not> py_in ''HP'' ''HP Pavilion Laptop 15 8GB RAM''
      then take 100 ''HP Pavilion Laptop 15 8GB RAM''
      else take 100 (py_strip (foldl (\<lambda>m w. py_replace w [] m)
              (py_strip (py_replace ''HP'' [] ''HP Pavilion Laptop 15 8GB RAM'')) stop_spellings)))
     = ''Pavilion  15 8''"
    by code_simp
  with extract_model_spellings [of "''HP Pavilion Laptop 15 8GB RAM''" "''HP''"]
  show ?thesis by simp
qed

text \<open>
  Claim C6 as stated fails: a stop word in another mix of cases stays. From the name
  ``HP 15s 8Gb Ram'' with brand ``HP'' the model keeps ``Gb'' and ``Ram''.
\<close>

theorem extract_model_counterexample:
  "extract_model ''HP 15s 8Gb Ram'' ''HP'' = ''15s 8Gb Ram''
   \<and> py_in ''Gb'' (extract_model ''HP 15s 8Gb Ram'' ''HP'')
   \<and> py_upper ''Gb'' = py_upper ''GB''
   \<and> py_in ''Ram'' (extract_model ''HP 15s 8Gb Ram'' ''HP'')
   \<and> py_upper ''Ram'' = py_upper ''RAM''"
  by code_simp

section \<open>Properties of the Metric Calculator\<close>

lemma ranges_for_known:
  "ranges_for ''ordinateurs-pc'' = \<lparr>budget = 3000, premium = 10000\<rparr>"
  "ranges_for ''telephones-smartphones'' = \<lparr>budget = 2000, premium = 6000\<rparr>"
  "ranges_for ''tv-home-cinema-lecteurs'' = \<lparr>budget = 2500, premium = 8000\<rparr>"
  "ranges_for ''mlp-electromenager'' = \<lparr>budget = 1500, premium = 5000\<rparr>"
  "ranges_for ''jeux-videos-consoles'' = \<lparr>budget = 1000, premium = 4000\<rparr>"
  by (simp_all add: ranges_for_def price_ranges_def)

lemma price_ranges_table:
  "map_of price_ranges ''ordinateurs-pc'' = Some \<lparr>budget = 3000, premium = 10000\<rparr>"
  "map_of price_ranges ''telephones-smartphones'' = Some \<lparr>budget = 2000, premium = 6000\<rparr>"
  "map_of price_ranges ''tv-home-cinema-lecteurs'' = Some \<lparr>budget = 2500, premium = 8000\<rparr>"
  "map_of price_ranges ''mlp-electromenager'' = Some \<lparr>budget = 1500, premium = 5000\<rparr>"
  "map_of price_ranges ''jeux-videos-consoles'' = Some \<lparr>budget = 1000, premium = 4000\<rparr>"
  by (simp_all add: price_ranges_def)

lemma f64_boundary_prices:
  "f64 1000.01 = 4398090491569111 / 2 ^ 42"
  "f64 5000.01 = 2748784566998139 / 2 ^ 39"
proof -
  have "f64 1000.01
      = of_int (round_half_even (1000.01 / 2 powi (max (9 - 52) (- 1074))))
          * 2 powi (max (9 - 52) (- 1074))"
    by (rule f64_eval) simp_all
  then show "f64 1000.01 = 4398090491569111 / 2 ^ 42"
    by (simp add: round_defs power_int_minus_divide)
  have "f64 5000.01
      = of_int (round_half_even (5000.01 / 2 powi (max (12 - 52) (- 1074))))
          * 2 powi (max (12 - 52) (- 1074))"
    by (rule f64_eval) simp_all
  then show "f64 5000.01 = 2748784566998139 / 2 ^ 39"
    by (simp add: round_defs power_int_minus_divide)
qed

text \<open>
  Claim C7. For every price and category key \<^verbatim>\<open>classify_price_tier\<close> answers Budget when
  the price is at most the budget threshold that the table gives the category, Mid-range
  when it is above that and at most the premium threshold of the category, and Premium
  above both, so a price on a threshold falls in the lower tier. A key outside the table
  gets the thresholds 1000 and 5000: 1000 is Budget, 1000.01 Mid-range, 5000 Mid-range and
  5000.01 Premium (for the decimals and for the floats nearest to them). The table holds
  the five categories of the scraper with the thresholds of the source.
\<close>

theorem classify_price_tier_thresholds:
  "(map_of price_ranges k = Some r \<longrightarrow>
      (price \<le> budget r \<longrightarrow> classify_price_tier price k = ''Budget'')
      \<and> (budget r < price \<and> price \<le> premium r \<longrightarrow> classify_price_tier price k = ''Mid-range'')
      \<and> (budget r < price \<and> premium r < price \<longrightarrow> classify_price_tier price k = ''Premium''))
   \<and> (map_of price_ranges k = None \<longrightarrow>
      (price \<le> 1000 \<longrightarrow> classify_price_tier price k = ''Budget'')
      \<and> (1000 < price \<and> price \<le> 5000 \<longrightarrow> classify_price_tier price k = ''Mid-range'')
      \<and> (5000 < price \<longrightarrow> classify_price_tier price k = ''Premium'')
      \<and> classify_price_tier 1000 k = ''Budget''
      \<and> classify_price_tier 1000.01 k = ''Mid-range''
      \<and> classify_price_tier (f64 1000.01) k = ''Mid-range''
      \<and> classify_price_tier 5000 k = ''Mid-range''
      \<and> classify_price_tier 5000.01 k = ''Premium''
      \<and> classify_price_tier (f64 5000.01) k = ''Premium'')
   \<and> map_of price_ranges ''ordinateurs-pc'' = Some \<lparr>budget = 3000, premium = 10000\<rparr>
   \<and> map_of price_ranges ''telephones-smartphones'' = Some \<lparr>budget = 2000, premium = 6000\<rparr>
   \<and> map_of price_ranges ''tv-home-cinema-lecteurs'' = Some \<lparr>budget = 2500, premium = 8000\<rparr>
   \<and> map_of price_ranges ''mlp-electromenager'' = Some \<lparr>budget = 1500, premium = 5000\<rparr>
   \<and> map_of price_ranges ''jeux-videos-consoles'' = Some \<lparr>budget = 1000, premium = 4000\<rparr>"
proof -
  have known: "map_of price_ranges k = Some r \<longrightarrow>
      (price \<le> budget r \<longrightarrow> classify_price_tier price k = ''Budget'')
      \<and> (budget r < price \<and> price \<le> premium r \<longrightarrow> classify_price_tier price k = ''Mid-range'')
      \<and> (budget r < price \<and> premium r < price \<longrightarrow> classify_price_tier price k = ''Premium'')"
    by (auto simp: classify_price_tier_def ranges_for_def Let_def)
  have unknown: "map_of price_ranges k = None \<longrightarrow>
      (price \<le> 1000 \<longrightarrow> classify_price_tier price k = ''Budget'')
      \<and> (1000 < price \<and> price \<le> 5000 \<longrightarrow> classify_price_tier price k = ''Mid-range'')
      \<and> (5000 < price \<longrightarrow> classify_price_tier price k = ''Premium'')
      \<and> classify_price_tier 1000 k = ''Budget''
      \<and> classify_price_tier 1000.01 k = ''Mid-range''
      \<and> classify_price_tier (f64 1000.01) k = ''Mid-range''
      \<and> classify_price_tier 5000 k = ''Mid-range''
      \<and> classify_price_tier 5000.01 k = ''Premium''
      \<and> classify_price_tier (f64 5000.01) k = ''Premium''"
    unfolding f64_boundary_prices
    by (auto simp: classify_price_tier_def ranges_for_def Let_def)
  from known unknown price_ranges_table show ?thesis by blast
qed

theorem classify_price_tier_thresholds_witness:
  "map_of price_ranges ''bricolage'' = None
   \<and> classify_price_tier 2500 ''bricolage'' = ''Mid-range''
   \<and> classify_price_tier 1000.01 ''bricolage'' = ''Mid-range''
   \<and> classify_price_tier 5000.01 ''bricolage'' = ''Premium''
   \<and> map_of price_ranges ''ordinateurs-pc'' = Some \<lparr>budget = 3000, premium = 10000\<rparr>
   \<and> classify_price_tier 2500 ''ordinateurs-pc'' = ''Budget''
   \<and> classify_price_tier 3000 ''ordinateurs-pc'' = ''Budget''
   \<and> classify_price_tier 7500 ''ordinateurs-pc'' = ''Mid-range''
   \<and> classify_price_tier 10000 ''ordinateurs-pc'' = ''Mid-range''
   \<and> classify_price_tier 12000 ''ordinateurs-pc'' = ''Premium''
   \<and> map_of price_ranges ''jeux-videos-consoles'' = Some \<lparr>budget = 1000, premium = 4000\<rparr>
   \<and> classify_price_tier 4500 ''jeux-videos-consoles'' = ''Premium''"
proof -
  have n: "map_of price_ranges ''bricolage'' = None" by (simp add: price_ranges_def)
  note t = price_ranges_table(1) price_ranges_table(5)
  have "classify_price_tier 2500 ''bricolage'' = ''Mid-range''"
    using classify_price_tier_thresholds [of "''bricolage''" r 2500] n by simp
  moreover have "classify_price_tier 1000.01 ''bricolage'' = ''Mid-range''"
      "classify_price_tier 5000.01 ''bricolage'' = ''Premium''"
    using classify_price_tier_thresholds [of "''bricolage''" r 0] n by simp_all
  moreover have "classify_price_tier 2500 ''ordinateurs-pc'' = ''Budget''"
    using classify_price_tier_thresholds
      [of "''ordinateurs-pc''" "\<lparr>budget = 3000, premium = 10000\<rparr>" 2500] t by simp
  moreover have "classify_price_tier 3000 ''ordinateurs-pc'' = ''Budget''"
    using classify_price_tier_thresholds
      [of "''ordinateurs-pc''" "\<lparr>budget = 3000, premium = 10000\<rparr>" 3000] t by simp
  moreover have "classify_price_tier 7500 ''ordinateurs-pc'' = ''Mid-range''"
    using classify_price_tier_thresholds
      [of "''ordinateurs-pc''" "\<lparr>budget = 3000, premium = 10000\<rparr>" 7500] t by simp
  moreover have "classify_price_tier 10000 ''ordinateurs-pc'' = ''Mid-range''"
    using classify_price_tier_thresholds
      [of "''ordinateurs-pc''" "\<lparr>budget = 3000, premium = 10000\<rparr>" 10000] t by simp
  moreover have "classify_price_tier 12000 ''ordinateurs-pc'' = ''Premium''"
    using classify_price_tier_thresholds
      [of "''ordinateurs-pc''" "\<lparr>budget = 3000, premium = 10000\<rparr>" 12000] t by simp
  moreover have "classify_price_tier 4500 ''jeux-videos-consoles'' = ''Premium''"
    using classify_price_tier_thresholds
      [of "''jeux-videos-consoles''" "\<lparr>budget = 1000, premium = 4000\<rparr>" 4500] t by simp
  ultimately show ?thesis using n t by blast
qed

lemma py_round2_range:
  assumes "0 \<le> t" and "t \<le> 100"
  shows "0 \<le> py_round2 t" and "py_round2 t \<le> 100"
    and "\<bar>py_round2 t - t\<bar> \<le> 1 / 200 + 1 / 2 ^ 47"
    and "\<exists>k :: int. 0 \<le> k \<and> k \<le> 10000 \<and> py_round2 t = f64 (of_int k / 100)"
proof -
  define k where "k = round_half_even (t * 100)"
  have b: "of_int 0 \<le> t * 100" "t * 100 \<le> of_int 10000" using assms by simp_all
  have k: "0 \<le> k" "k \<le> 10000"
    unfolding k_def by (rule round_half_even_ge [OF b(1)], rule round_half_even_le [OF b(2)])
  then have kr: "(0::rat) \<le> of_int k / 100" "(of_int k :: rat) / 100 \<le> 100" by simp_all
  have r: "py_round2 t = f64 (of_int k / 100)" by (simp add: py_round2_def k_def)
  have near: "\<bar>of_int k / 100 - t\<bar> \<le> 1 / 200"
    using round_half_even_near [of "t * 100"] by (simp add: k_def abs_if split: if_splits)
  from f64_between [of 0 "of_int k / 100" 100] kr
  show "0 \<le> py_round2 t" "py_round2 t \<le> 100" by (simp_all add: r)
  from f64_small_error [OF kr] near
  show "\<bar>py_round2 t - t\<bar> \<le> 1 / 200 + 1 / 2 ^ 47" unfolding r by linarith
  from k r show "\<exists>k :: int. 0 \<le> k \<and> k \<le> 10000 \<and> py_round2 t = f64 (of_int k / 100)" by blast
qed

lemma discount_bonus_close:
  assumes "0 \<le> d" and "d \<le> 100"
  shows "0 \<le> min (float_mul d (f64 (6 / 10))) 30"
    and "\<bar>min (float_mul d (f64 (6 / 10))) 30 - min (d * (6 / 10)) 30\<bar> \<le> 2 / 2 ^ 47"
proof -
  define c where "c = f64 (6 / 10)"
  have c: "c = 5404319552844595 / 2 ^ 53" unfolding c_def by (rule f64_six_tenths)
  then have c01: "0 \<le> c" "c \<le> 1" and cerr: "\<bar>c - 6 / 10\<bar> \<le> 1 / 2 ^ 54" by simp_all
  have dc: "0 \<le> d * c" "d * c \<le> 100"
    using assms c01 by (simp_all add: mult_le_one mult_mono [of d 100 c 1, simplified])
  have p0: "0 \<le> f64 (d * c)" using dc(1) by (rule f64_nonneg)
  have perr: "\<bar>f64 (d * c) - d * c\<bar> \<le> 1 / 2 ^ 47" using dc by (rule f64_small_error)
  have "\<bar>d * c - d * (6 / 10)\<bar> = d * \<bar>c - 6 / 10\<bar>"
    using assms(1) by (simp add: abs_mult right_diff_distrib [symmetric] del: times_divide_eq_right)
  also have "\<dots> \<le> 100 * (1 / 2 ^ 54)"
    using assms cerr by (intro mult_mono) simp_all
  finally have derr: "\<bar>d * c - d * (6 / 10)\<bar> \<le> 1 / 2 ^ 47" by simp
  from p0 show "0 \<le> min (float_mul d (f64 (6 / 10))) 30"
    by (simp add: float_mul_def c_def)
  from perr derr show "\<bar>min (float_mul d (f64 (6 / 10))) 30 - min (d * (6 / 10)) 30\<bar> \<le> 2 / 2 ^ 47"
    unfolding float_mul_def c_def [symmetric] by (simp add: min_def abs_if split: if_splits)
qed


lemma value_score_500_1000_50: "calculate_value_score 500 1000 50 = 100"
proof -
  have "f64 (50 * f64 (3 / 5))
      = of_int (round_half_even (50 * f64 (3 / 5) / 2 powi (max (4 - 52) (- 1074))))
          * 2 powi (max (4 - 52) (- 1074))"
    by (rule f64_eval) (simp_all add: f64_three_fifths)
  then have p: "f64 (50 * f64 (3 / 5)) = 30"
    by (simp add: f64_three_fifths round_defs power_int_minus_divide)
  show ?thesis
    by (simp add: calculate_value_score_def float_mul_def float_add_def p py_round2_def Let_def)
qed

text \<open>
  Claim C8. For a current price and an original price that are not negative and a discount
  between 0 and 100, \<^verbatim>\<open>calculate_value_score\<close> lies between 0 and 100 and is the float
  nearest to a decimal with two places. Computed in floats, it differs from the exact
  number 50, plus the smaller of 0.6 times the discount and 30, plus 20 below a price of
  1000, 10 below 3000, 0 below 5000 and -10 from there on, cut to the range 0 to 100, by
  at most half a hundredth and the rounding of the float operations (less than
  \<open>1 / 2 ^ 44\<close>). For price 500, original price 1000 and discount 50 it is 100.
\<close>

theorem calculate_value_score_range:
  assumes "0 \<le> current" and "0 \<le> original" and "0 \<le> d" and "d \<le> 100"
  shows "0 \<le> calculate_value_score current original d
    \<and> calculate_value_score current original d \<le> 100
    \<and> (\<exists>k :: int. 0 \<le> k \<and> k \<le> 10000
          \<and> calculate_value_score current original d = f64 (of_int k / 100))
    \<and> \<bar>calculate_value_score current original d
         - max 0 (min 100 (50 + min (d * (6 / 10)) 30
             + (if current < 1000 then 20 else if current < 3000 then 10
                else if current < 5000 then 0 else - 10)))\<bar>
        \<le> 1 / 200 + 1 / 2 ^ 44
    \<and> calculate_value_score 500 1000 50 = 100"
proof -
  define B where "B = min (float_mul d (f64 (6 / 10))) 30"
  define B' where "B' = min (d * (6 / 10)) 30"
  define pb :: rat where "pb = (if current < 1000 then 20 else if current < 3000 then 10
                else if current < 5000 then 0 else - 10)"
  define s1 where "s1 = f64 (50 + B)"
  define s2 where "s2 = f64 (s1 + pb)"
  define eps :: rat where "eps = 1 / 2 ^ 47"
  have pbr: "- 10 \<le> pb" "pb \<le> 20" by (simp_all add: pb_def)
  have B: "0 \<le> B" "B \<le> 30" and BB: "\<bar>B - B'\<bar> \<le> 2 * eps"
    using discount_bonus_close [OF assms(3,4)] by (simp_all add: B_def B'_def eps_def)
  have B': "0 \<le> B'" "B' \<le> 30" using assms(3) by (simp_all add: B'_def)
  have "of_int 50 \<le> 50 + B" "50 + B \<le> of_int 80" using B by simp_all
  from f64_between [OF this] have s1: "50 \<le> s1" "s1 \<le> 80" by (simp_all add: s1_def)
  have e1: "\<bar>s1 - (50 + B)\<bar> \<le> eps"
    unfolding s1_def eps_def using B by (intro f64_small_error) simp_all
  have "of_int 40 \<le> s1 + pb" "s1 + pb \<le> of_int 100" using s1 pbr by simp_all
  from f64_between [OF this] have s2: "40 \<le> s2" "s2 \<le> 100" by (simp_all add: s2_def)
  have e2: "\<bar>s2 - (s1 + pb)\<bar> \<le> eps"
    unfolding s2_def eps_def using s1 pbr by (intro f64_small_error) simp_all
  have clamp: "max 0 (min 100 s2) = s2" using s2 by simp
  have clamp': "max 0 (min 100 (50 + B' + pb)) = 50 + B' + pb"
    using B' pbr by simp
  have "calculate_value_score current original d = py_round2 (max 0 (min 100 s2))"
    by (simp only: calculate_value_score_def Let_def float_add_def s2_def s1_def B_def pb_def)
  then have v: "calculate_value_score current original d = py_round2 s2"
    by (simp only: clamp)
  have s2': "0 \<le> s2" using s2 by simp
  note r = py_round2_range [OF s2' s2(2)]
  have e3: "\<bar>py_round2 s2 - s2\<bar> \<le> 1 / 200 + eps" using r(3) by (simp add: eps_def)
  have "\<bar>py_round2 s2 - (50 + B' + pb)\<bar> \<le> 1 / 200 + 5 * eps"
    using e1 e2 e3 BB by linarith
  also have "\<dots> \<le> 1 / 200 + 1 / 2 ^ 44" by (simp add: eps_def)
  finally have close: "\<bar>py_round2 s2 - max 0 (min 100 (50 + B' + pb))\<bar> \<le> 1 / 200 + 1 / 2 ^ 44"
    by (simp only: clamp')
  from r(1,2,4) close value_score_500_1000_50 show ?thesis
    unfolding v B'_def pb_def by blast
qed


text \<open>
  At price 500 and the float 0.075 as discount the exact sum 70.045 lies between two
  hundredths; the float sum lies just above it and the score is the float 70.05.
\<close>

theorem calculate_value_score_range_witness:
  "(0::rat) \<le> 500 \<and> (0::rat) \<le> 0 \<and> (0::rat) \<le> 5404319552844595 / 2 ^ 56 \<and> (5404319552844595 / 2 ^ 56 :: rat) \<le> 100
   \<and> 0 \<le> calculate_value_score 500 0 (5404319552844595 / 2 ^ 56)
   \<and> calculate_value_score 500 0 (5404319552844595 / 2 ^ 56) \<le> 100
   \<and> calculate_value_score 500 0 (5404319552844595 / 2 ^ 56) = 4929330529645363 / 2 ^ 46
   \<and> f64 (7005 / 100) = 4929330529645363 / 2 ^ 46"
proof -
  have p: "f64 (5404319552844595 / 2 ^ 56 * (5404319552844595 / 2 ^ 53)) = 3242591731706757 / 2 ^ 56"
  proof -
    have "f64 (5404319552844595 / 2 ^ 56 * (5404319552844595 / 2 ^ 53))
        = of_int (round_half_even ((5404319552844595 / 2 ^ 56 * (5404319552844595 / 2 ^ 53)) / 2 powi (max (- 5 - 52) (- 1074))))
            * 2 powi (max (- 5 - 52) (- 1074))"
      by (rule f64_eval) simp_all
    then show ?thesis by (simp add: round_defs power_int_minus_divide)
  qed
  have s1: "f64 (50 + 3242591731706757 / 2 ^ 56) = 3521603802371195 / 2 ^ 46"
  proof -
    have "f64 (50 + 3242591731706757 / 2 ^ 56)
        = of_int (round_half_even ((50 + 3242591731706757 / 2 ^ 56) / 2 powi (max (5 - 52) (- 1074))))
            * 2 powi (max (5 - 52) (- 1074))"
      by (rule f64_eval) simp_all
    then show ?thesis by (simp add: round_defs power_int_minus_divide)
  qed
  have s2: "f64 (3521603802371195 / 2 ^ 46 + 20) = 4928978685924475 / 2 ^ 46"
  proof -
    have "f64 (3521603802371195 / 2 ^ 46 + 20)
        = of_int (round_half_even ((3521603802371195 / 2 ^ 46 + 20) / 2 powi (max (6 - 52) (- 1074))))
            * 2 powi (max (6 - 52) (- 1074))"
      by (rule f64_eval) simp_all
    then show ?thesis by (simp add: round_defs power_int_minus_divide)
  qed
  have r: "f64 (rat_of_int 7005 / 100) = 4929330529645363 / 2 ^ 46"
  proof -
    have "f64 (rat_of_int 7005 / 100)
        = of_int (round_half_even ((rat_of_int 7005 / 100) / 2 powi (max (6 - 52) (- 1074))))
            * 2 powi (max (6 - 52) (- 1074))"
      by (rule f64_eval) simp_all
    then show ?thesis by (simp add: round_defs power_int_minus_divide)
  qed
  have r': "f64 (7005 / 100) = 4929330529645363 / 2 ^ 46"
  proof -
    have "f64 (7005 / 100)
        = of_int (round_half_even ((7005 / 100) / 2 powi (max (6 - 52) (- 1074))))
            * 2 powi (max (6 - 52) (- 1074))"
      by (rule f64_eval) simp_all
    then show ?thesis by (simp add: round_defs power_int_minus_divide)
  qed
  have m: "min (3242591731706757 / 2 ^ 56) (30::rat) = 3242591731706757 / 2 ^ 56" by simp
  have c: "max (0::rat) (min 100 (4928978685924475 / 2 ^ 46)) = 4928978685924475 / 2 ^ 46" by simp
  have k: "round_half_even (4928978685924475 / 2 ^ 46 * 100) = 7005" by (simp add: round_defs)
  have i: "(if (500::rat) < 1000 then 20 else if (500::rat) < 3000 then 10
            else if (500::rat) < 5000 then 0 else - 10) = (20::rat)" by simp
  have "calculate_value_score 500 0 (5404319552844595 / 2 ^ 56) = 4929330529645363 / 2 ^ 46"
    by (simp only: calculate_value_score_def Let_def float_mul_def float_add_def py_round2_def
        f64_six_tenths p m s1 i s2 c k r)
  moreover have "(0::rat) \<le> 500" "(0::rat) \<le> 0" "(0::rat) \<le> 5404319552844595 / 2 ^ 56" "(5404319552844595 / 2 ^ 56 :: rat) \<le> 100"
    by simp_all
  moreover from calculate_value_score_range [OF this]
  have "0 \<le> calculate_value_score 500 0 (5404319552844595 / 2 ^ 56)
      \<and> calculate_value_score 500 0 (5404319552844595 / 2 ^ 56) \<le> 100" by blast
  ultimately show ?thesis using r' by blast
qed

section \<open>Properties of the Product Builder\<close>

lemma clean_price_zero_text: "clean_price ''0'' = 0"
  by (simp add: text_defs)

lemma extract_product_data_fields:
  assumes "extract_product_data (Article a) k n i = Some r"
  shows "current_price r = clean_price (case price_elem a of Some t \<Rightarrow> t | None \<Rightarrow> ''0'')"
    and "current_price r \<noteq> 0"
    and "original_price r =
      (let original = clean_price (case old_price_elem a of Some t \<Rightarrow> t | None \<Rightarrow> ''0'')
       in if 0 < original then Some original else None)"
    and "url r = (case link_elem a of
                    None \<Rightarrow> []
                  | Some None \<Rightarrow> []
                  | Some (Some href) \<Rightarrow> if href = [] then [] else ''https://www.jumia.ma'' @ href)"
    and "product_id r = ''JUM_'' @ format_04d i"
  using assms
  by (auto simp: extract_product_data_def Let_def split: if_splits)

text \<open>
  Claim C3, as amended. For every accepted record the original price is absent exactly
  when the container has no original-price text or that text cleans to 0; otherwise it is
  the cleaned original price, whether or not it exceeds the current price.
\<close>

theorem original_price_rule:
  assumes "extract_product_data (Article a) k n i = Some r"
  shows "original_price r =
     (case old_price_elem a of
        None \<Rightarrow> None
      | Some t \<Rightarrow> if clean_price t = 0 then None else Some (clean_price t))"
proof (cases "old_price_elem a")
  case None
  then show ?thesis
    by (simp add: extract_product_data_fields(3) [OF assms] clean_price_zero_text)
next
  case (Some t)
  have "0 \<le> clean_price t" by (rule clean_price_nonneg)
  then have "0 < clean_price t \<longleftrightarrow> clean_price t \<noteq> 0" by auto
  with Some show ?thesis
    by (simp add: extract_product_data_fields(3) [OF assms] Let_def)
qed

lemma clean_price_samples:
  "clean_price ''1,000.00 Dhs'' = 1000"
  "clean_price ''500.00 Dhs'' = 500"
  by (simp_all add: text_defs)

lemma marked_down_wrongly_built:
  "map_option (\<lambda>r. (current_price r, original_price r, discount_percent r))
     (extract_product_data (Article marked_down_wrongly) ''ordinateurs-pc'' ''Laptops & Computers'' 1)
   = Some (1000, Some 500, 0)"
  by (simp add: extract_product_data_def marked_down_wrongly_def clean_price_samples Let_def
      calculate_discount_def)

text \<open>
  Claim C3 as stated fails: with a current price of 1000 and an original-price text that
  cleans to 500, the record carries the original price 500.
\<close>

theorem original_price_counterexample:
  "map_option original_price
     (extract_product_data (Article marked_down_wrongly) ''ordinateurs-pc'' ''Laptops & Computers'' 1)
     = Some (Some 500)
   \<and> map_option current_price
     (extract_product_data (Article marked_down_wrongly) ''ordinateurs-pc'' ''Laptops & Computers'' 1)
     = Some 1000
   \<and> \<not> (1000 :: rat) < 500"
  by (simp add: extract_product_data_def marked_down_wrongly_def clean_price_samples Let_def)

theorem original_price_rule_witness:
  "(\<exists>r. extract_product_data (Article marked_down_wrongly) ''ordinateurs-pc'' ''Laptops & Computers'' 7 = Some r
        \<and> original_price r = Some 500)"
proof -
  obtain r where r: "extract_product_data (Article marked_down_wrongly) ''ordinateurs-pc'' ''Laptops & Computers'' 7 = Some r"
    by (simp add: extract_product_data_def marked_down_wrongly_def clean_price_samples Let_def)
  from original_price_rule [OF r] have "original_price r = Some 500"
    by (simp add: marked_down_wrongly_def clean_price_samples)
  with r show ?thesis by blast
qed

text \<open>
  Claim C4 says that a link which does not start with a slash is passed through unchanged.
  The builder puts the site root in front of every non-empty link: for the link
  \<^verbatim>\<open>https://www.jumia.ma/hp-15s.html\<close> the record's url starts with the root twice.
\<close>

theorem url_of_absolute_link:
  "map_option url
     (extract_product_data (Article absolute_link) ''ordinateurs-pc'' ''Laptops & Computers'' 1)
   = Some ''https://www.jumia.mahttps://www.jumia.ma/hp-15s.html''"
  by (simp add: extract_product_data_def absolute_link_def clean_price_samples Let_def)

section \<open>Properties of the Run Orchestrator\<close>

lemma override_applies_total:
  "override_applies m = Inr (isinstance_int m \<and> 1 \<le> int_of_pyval m)"
  by (cases m) (simp_all add: override_applies_def isinstance_int_def py_ge_def int_of_pyval_def)

lemma float_limit_gt_1: "1 < float_limit"
  by (simp add: float_limit_def)

lemma int_truediv_in_range:
  assumes "0 < b" and "0 \<le> a" and "of_int a < of_int b * float_limit"
  shows "int_truediv a b = Inr (f64 (of_int a / of_int b))"
proof -
  have "(of_int a :: rat) / of_int b < float_limit"
    using assms(1,3) by (simp add: pos_divide_less_eq mult.commute)
  moreover have "(0::rat) \<le> of_int a / of_int b" using assms(1,2) by simp
  ultimately have "\<not> float_limit \<le> \<bar>of_int a / of_int b :: rat\<bar>" by simp
  with assms(1) show ?thesis by (simp add: int_truediv_def)
qed

lemma categories_from_in_range:
  assumes "\<forall>(k, b) \<in> set bs. 2 \<le> default_pages b"
    and "of_int (int_of_pyval m) < 2 * float_limit"
  shows "\<exists>cats. categories_from m bs = Inr cats
     \<and> map fst cats = map fst bs
     \<and> map (\<lambda>(k, c). ci_name c) cats = map (\<lambda>(k, b). bc_name b) bs
     \<and> map (\<lambda>(k, c). pages c) cats =
         map (\<lambda>(k, b). if isinstance_int m \<and> 1 \<le> int_of_pyval m
                         then int_of_pyval m else default_pages b) bs"
  using assms(1)
proof (induction bs)
  case Nil
  then show ?case by simp
next
  case (Cons kb bs)
  define ov where "ov = (isinstance_int m \<and> 1 \<le> int_of_pyval m)"
  obtain k b where kb: "kb = (k, b)" by (cases kb)
  from Cons.prems kb have d: "2 \<le> default_pages b" by simp
  then have dr: "(2::rat) \<le> of_int (default_pages b)" by linarith
  define pgs where "pgs = (if ov then int_of_pyval m else default_pages b)"
  have L: "0 < float_limit" using float_limit_gt_1 by simp
  have p0: "0 \<le> pgs" using d by (cases ov) (simp_all add: pgs_def ov_def)
  have p1: "of_int pgs < of_int (default_pages b) * float_limit"
  proof (cases ov)
    case True
    have "of_int (int_of_pyval m) < 2 * float_limit" by (rule assms(2))
    also have "\<dots> \<le> of_int (default_pages b) * float_limit"
      using dr L by (intro mult_right_mono) simp_all
    finally show ?thesis using True by (simp add: pgs_def)
  next
    case False
    have "of_int (default_pages b) * 1 < of_int (default_pages b) * float_limit"
      using dr float_limit_gt_1 by (intro mult_strict_left_mono) simp_all
    with False show ?thesis by (simp add: pgs_def)
  qed
  have "0 < default_pages b" using d by simp
  from int_truediv_in_range [OF this p0 p1]
  have t: "int_truediv pgs (default_pages b) = Inr (f64 (of_int pgs / of_int (default_pages b)))" .
  from Cons.IH Cons.prems obtain cats where c: "categories_from m bs = Inr cats"
      "map fst cats = map fst bs"
      "map (\<lambda>(k, c). ci_name c) cats = map (\<lambda>(k, b). bc_name b) bs"
      "map (\<lambda>(k, c). pages c) cats =
         map (\<lambda>(k, b). if ov then int_of_pyval m else default_pages b) bs"
    unfolding ov_def by auto
  have "\<exists>cats. categories_from m (kb # bs) = Inr cats
     \<and> map fst cats = map fst (kb # bs)
     \<and> map (\<lambda>(k, c). ci_name c) cats = map (\<lambda>(k, b). bc_name b) (kb # bs)
     \<and> map (\<lambda>(k, c). pages c) cats =
         map (\<lambda>(k, b). if ov then int_of_pyval m else default_pages b) (kb # bs)"
    unfolding kb
    by (simp add: override_applies_total ov_def [symmetric] Let_def t [unfolded pgs_def] c)
  then show ?case unfolding ov_def .
qed

lemma page_override_in_range:
  assumes "of_int (int_of_pyval m) < 2 * float_limit"
  shows "\<exists>cats. categories_to_scrape m = Inr cats
     \<and> map fst cats = map fst base_categories
     \<and> map (\<lambda>(k, c). ci_name c) cats = map (\<lambda>(k, b). bc_name b) base_categories
     \<and> map (\<lambda>(k, c). pages c) cats =
         map (\<lambda>(k, b). if isinstance_int m \<and> 1 \<le> int_of_pyval m
                         then int_of_pyval m else default_pages b) base_categories"
  unfolding categories_to_scrape_def
  by (rule categories_from_in_range [OF _ assms]) (simp add: base_categories_def)

text \<open>
  Claim C10 says that an integer override of at least 1 becomes the page count of every
  category and that no value of the override raises. That holds for every value below
  twice the largest float (the lemma above). For the integer \<open>10 ^ 309\<close> the run raises
  OverflowError while it builds the entry of the first category: the division of the page
  count by the default page count, made for the expected number of products, does not
  fit a float.
\<close>

theorem override_too_large_raises:
  "categories_to_scrape (PyInt (10 ^ 309)) = Inl OverflowError
   \<and> scrape_all_categories (PyInt (10 ^ 309)) page self = Inl OverflowError"
proof -
  have "int_truediv (10 ^ 309) 4 = Inl OverflowError"
    by (simp add: int_truediv_def float_limit_def)
  then have "categories_to_scrape (PyInt (10 ^ 309)) = Inl OverflowError"
    by (simp add: categories_to_scrape_def base_categories_def override_applies_total
        isinstance_int_def int_of_pyval_def)
  then show ?thesis by (simp add: scrape_all_categories_def)
qed







lemma clean_price_run_samples:
  "clean_price ''4,999.00 Dhs'' = 4999"
  "clean_price ''6,250 Dhs'' = 6250"
  "clean_price ''7,000 Dhs'' = 7000"
  "clean_price ''N/A'' = 0"
  "clean_price ''0'' = 0"
  by (simp_all add: text_defs)

lemma format_04d_samples:
  "format_04d (Suc 0) = ''0001''" "format_04d (Suc (Suc 0)) = ''0002''"
  by code_simp+

lemma range_two: "[Suc 0 ..< 3] = [Suc 0, 2]"
  by (simp add: upt_rec)

lemmas run_eval = extract_product_data_def process_products_def scrape_category_def
  new_scraper_def Let_def clean_price_run_samples format_04d_samples range_two
  laptop_a_def laptop_b_def unpriced_def two_pages_def

text \<open>
  Claim C2 at its own scenario: a category of 2 pages, page 1 with three containers of
  which one has no price, page 2 with no container. The category returns with 2 records,
  no error and one page counted in the run statistics, as claimed; but the page number
  stored in its result is 2, the page whose emptiness stopped the loop, not 1.
\<close>

theorem early_stop_records_page_2:
  "\<exists>s. scrape_category three_then_none ''jeux-videos-consoles'' two_pages new_scraper = (s, Returned)
     \<and> map product_id (products s) = [''JUM_0001'', ''JUM_0002'']
     \<and> map_option products_found (categories_scraped s ''jeux-videos-consoles'') = Some 2
     \<and> map_option cr_pages_scraped (categories_scraped s ''jeux-videos-consoles'') = Some 2
     \<and> pages_scraped s = 1 \<and> errors s = 0"
  by (simp add: run_eval three_then_none_def)




lemma py_strip_samples:
  "py_strip ''HP 15s'' = ''HP 15s''" "py_strip ''Dell Vostro'' = ''Dell Vostro''"
  by code_simp+

lemma int_truediv_small:
  "int_truediv 2 4 = Inr (f64 (1 / 2))" "int_truediv 2 3 = Inr (f64 (2 / 3))"
  "int_truediv 2 2 = Inr (f64 1)"
  by (simp_all add: int_truediv_def float_limit_def)

lemma categories_with_two_pages:
  "categories_to_scrape (PyInt 2) =
     Inr [(''ordinateurs-pc'', \<lparr>ci_name = ''Laptops & Computers'', pages = 2,
             expected_products = float_mul_inf 80 (f64 (1 / 2))\<rparr>),
          (''telephones-smartphones'', \<lparr>ci_name = ''Smartphones'', pages = 2,
             expected_products = float_mul_inf 80 (f64 (1 / 2))\<rparr>),
          (''tv-home-cinema-lecteurs'', \<lparr>ci_name = ''Televisions'', pages = 2,
             expected_products = float_mul_inf 60 (f64 (2 / 3))\<rparr>),
          (''mlp-electromenager'', \<lparr>ci_name = ''Home Appliances'', pages = 2,
             expected_products = float_mul_inf 60 (f64 (2 / 3))\<rparr>),
          (''jeux-videos-consoles'', \<lparr>ci_name = ''Gaming'', pages = 2,
             expected_products = float_mul_inf 40 (f64 1)\<rparr>)]"
  by (simp add: categories_to_scrape_def base_categories_def override_applies_total
      isinstance_int_def int_of_pyval_def int_truediv_small)

text \<open>
  Claim C1 says that the identifiers of a run are \<^verbatim>\<open>JUM_0001\<close>, \<^verbatim>\<open>JUM_0002\<close>, ... without
  repeats across pages. In a run of two pages per category with one product on each of the
  first two pages of the first category, both records get \<^verbatim>\<open>JUM_0001\<close>: the count behind
  the identifier leaves out the records of the category's earlier pages.
\<close>

theorem ids_repeat_across_pages:
  "\<exists>s. scrape_all_categories (PyInt 2) one_per_page new_scraper = Inr s
     \<and> map product_id (products s) = [''JUM_0001'', ''JUM_0001'']
     \<and> map product_name (products s) = [''HP 15s'', ''Dell Vostro'']
     \<and> total_products s = 2 \<and> errors s = 0"
  by (simp add: scrape_all_categories_def categories_with_two_pages finalize_scraping_def
      run_eval one_per_page_def py_strip_samples)

end
